theory Spec2Isabelle
  imports Complex_Main "HOL-Library.Sublist" "HOL-Library.Multiset"
begin

section \<open>JavaScript values used by the ticket pages\<close>

text \<open>
  Strings are lists of characters. \<open>toLowerCase\<close> maps the letters A to Z to a to z and
  leaves every other character alone; this is what \<open>String.prototype.toLowerCase\<close> does on
  the characters that matter to the two uses in the code: the search for the ASCII word
  \<open>cultural\<close> and the comparison of hexadecimal wallet addresses.
\<close>

definition upper_letters :: string where
  "upper_letters = ''ABCDEFGHIJKLMNOPQRSTUVWXYZ''"

definition lower_letters :: string where
  "lower_letters = ''abcdefghijklmnopqrstuvwxyz''"

definition toLowerChar :: "char \<Rightarrow> char" where
  "toLowerChar c = (case map_of (zip upper_letters lower_letters) c of Some l \<Rightarrow> l | None \<Rightarrow> c)"

definition toLowerCase :: "string \<Rightarrow> string" where
  "toLowerCase s = map toLowerChar s"

text \<open>\<open>s.includes(sub)\<close>: \<open>sub\<close> occurs in \<open>s\<close> as a contiguous run, at some position.\<close>

fun str_includes :: "string \<Rightarrow> string \<Rightarrow> bool" where
  "str_includes [] sub = (sub = [])"
| "str_includes (c # cs) sub = (prefix sub (c # cs) \<or> str_includes cs sub)"

text \<open>
  The ticket id argument of \<open>getTicketFallbackImage\<close> is tested with \<open>===\<close> against the
  number 0 and the string \<open>'0'\<close> and with \<open>typeof\<close>, so the model keeps the JavaScript
  type of the value. Numbers are the integers (token ids come from \<open>toNumber()\<close>).
\<close>

datatype js_value = JNumber int | JString string | JUndefined

text \<open>
  \<open>a % b\<close> on integers: the result takes the sign of the dividend, and is \<open>NaN\<close>
  (here \<open>None\<close>) when the divisor is 0.
\<close>

definition js_rem :: "int \<Rightarrow> int \<Rightarrow> int option" where
  "js_rem a b = (if b = 0 then None else Some (sgn a * (\<bar>a\<bar> mod \<bar>b\<bar>)))"

text \<open>\<open>arr[i]\<close>: the element when the index is in range, \<open>undefined\<close> (here \<open>None\<close>) otherwise.\<close>

definition js_index :: "'a list \<Rightarrow> int option \<Rightarrow> 'a option" where
  "js_index arr i =
     (case i of
        None \<Rightarrow> None
      | Some k \<Rightarrow> if 0 \<le> k \<and> k < int (length arr) then Some (arr ! nat k) else None)"

section \<open>fallbackImageUtils.js\<close>

definition DEFAULT_TICKET_IMAGES :: "string list" where
  "DEFAULT_TICKET_IMAGES =
    [''https://img.freepik.com/free-vector/realistic-concert-entrance-tickets-set_1017-30605.jpg'',
     ''https://img.freepik.com/free-vector/realistic-golden-ticket-template_52683-35936.jpg'',
     ''https://img.freepik.com/free-vector/cinema-tickets-set_1017-30634.jpg'',
     ''https://img.freepik.com/free-vector/realistic-concert-entrance-tickets-set_1017-30605.jpg'',
     ''https://img.freepik.com/free-vector/realistic-concert-entrance-tickets-set_1017-30605.jpg'']"

definition CULTURAL_TICKET_IMAGES :: "string list" where
  "CULTURAL_TICKET_IMAGES =
    [''https://img.freepik.com/free-photo/traditional-cultural-dance-performance-stage_53876-138776.jpg'',
     ''https://img.freepik.com/free-photo/group-people-traditional-indian-clothes_23-2149064512.jpg'',
     ''https://img.freepik.com/free-photo/woman-dancing-traditional-chinese-clothing_23-2149064502.jpg'',
     ''https://img.freepik.com/free-photo/african-american-jazz-musician-playing-trumpet_23-2149071755.jpg'',
     ''https://img.freepik.com/free-photo/traditional-mexican-hat-with-decorations_23-2149067702.jpg'']"

text \<open>
  The event object handed to \<open>getTicketFallbackImage\<close>. A field that is \<open>undefined\<close> or
  \<open>null\<close> is \<open>None\<close>.
\<close>

record event_arg =
  eventId :: nat
  name :: "string option"
  description :: "string option"

text \<open>
  \<open>x && x.toLowerCase().includes('cultural')\<close>, read as a condition: a missing or empty
  string is falsy, so the search is not made.
\<close>

definition mentions_cultural :: "string option \<Rightarrow> bool" where
  "mentions_cultural x =
     (case x of
        None \<Rightarrow> False
      | Some s \<Rightarrow> s \<noteq> [] \<and> str_includes (toLowerCase s) ''cultural'')"

definition is_cultural_event :: "event_arg \<Rightarrow> bool" where
  "is_cultural_event event = (mentions_cultural (name event) \<or> mentions_cultural (description event))"

text \<open>\<open>typeof ticketId === 'number' ? ticketId : 0\<close>\<close>

definition number_or_zero :: "js_value \<Rightarrow> int" where
  "number_or_zero ticketId = (case ticketId of JNumber n \<Rightarrow> n | _ \<Rightarrow> 0)"

text \<open>
  The first argument is \<open>None\<close> when the caller passes no event (\<open>!event\<close> holds). The
  result is \<open>None\<close> where the JavaScript function returns \<open>undefined\<close>.
\<close>

definition getTicketFallbackImage :: "event_arg option \<Rightarrow> js_value \<Rightarrow> string option" where
  "getTicketFallbackImage event ticketId =
     (case event of
        None \<Rightarrow> js_index DEFAULT_TICKET_IMAGES (Some 0)
      | Some ev \<Rightarrow>
          if ticketId = JNumber 0 \<or> ticketId = JString ''0''
          then js_index CULTURAL_TICKET_IMAGES (Some 0)
          else if is_cultural_event ev
          then js_index CULTURAL_TICKET_IMAGES
                 (js_rem (number_or_zero ticketId) (int (length CULTURAL_TICKET_IMAGES)))
          else js_index DEFAULT_TICKET_IMAGES
                 (js_rem (number_or_zero ticketId) (int (length DEFAULT_TICKET_IMAGES))))"

text \<open>
  The condition of the second rule in the words of the specification: the string is
  present and some contiguous run of it is the word, letter case aside.
\<close>

definition contains_ignoring_case :: "string option \<Rightarrow> string \<Rightarrow> bool" where
  "contains_ignoring_case x w =
     (case x of
        None \<Rightarrow> False
      | Some s \<Rightarrow> \<exists>p m q. s = p @ m @ q \<and> toLowerCase m = toLowerCase w)"

section \<open>MyTickets.jsx: the data\<close>

text \<open>A rejected promise or a thrown exception, with its message.\<close>

datatype error = Error string

text \<open>A \<open>Transfer\<close> log entry; \<open>args_tokenId\<close> is the 256-bit token id of the ledger.\<close>

record transfer_event =
  from_address :: string
  to_address :: string
  args_tokenId :: nat

text \<open>What \<open>getTicket\<close> and \<open>getEvent\<close> return, with the fields the page reads.\<close>

record ticket_state =
  ticket_eventId :: nat
  ticket_used :: bool
  ticket_locked :: bool

record event_descriptor =
  event_name :: string
  event_date :: int

text \<open>
  The off-chain metadata, JSON of the shape \<open>{name, description, image}\<close>; a field the
  document does not carry is \<open>None\<close>.
\<close>

record ticket_metadata =
  md_name :: "string option"
  md_description :: "string option"
  image :: "string option"

text \<open>The object pushed onto \<open>userTickets\<close>. Dates are millisecond timestamps.\<close>

record ticket_record =
  tokenId :: nat
  ticket_record_eventId :: nat
  eventName :: string
  eventDate :: int
  used :: bool
  locked :: bool
  metadata :: ticket_metadata

text \<open>
  The collaborators of the page that live outside the component: the contract object
  (\<open>queryFilter\<close> is applied to the filter \<open>Transfer(null, account)\<close>, so it is given
  the account), the helpers of \<open>contractUtils\<close> and \<open>ipfsUtils\<close>, and the network
  (\<open>fetch\<close> yields the response, \<open>json\<close> parses its body). Each call either returns a
  value or throws.
\<close>

record contract =
  queryFilter :: "string \<Rightarrow> error + transfer_event list"
  ownerOf :: "nat \<Rightarrow> error + string"

record environment =
  getContract :: "error + contract"
  getTicket :: "nat \<Rightarrow> error + ticket_state"
  getEvent :: "nat \<Rightarrow> error + event_descriptor"
  getTokenURI :: "nat \<Rightarrow> error + string"
  ipfsToHttp :: "string \<Rightarrow> error + string"
  fetch :: "string \<Rightarrow> error + string"
  json :: "string \<Rightarrow> error + ticket_metadata"

section \<open>MyTickets.jsx: fetchUserTickets\<close>

text \<open>\<open>BigNumber.toNumber()\<close> throws when the value does not fit a safe integer.\<close>

definition MAX_SAFE_INTEGER :: nat where
  "MAX_SAFE_INTEGER = 2 ^ 53 - 1"

definition toNumber :: "nat \<Rightarrow> error + nat" where
  "toNumber n = (if n \<le> MAX_SAFE_INTEGER then Inr n else Inl (Error ''overflow''))"

text \<open>\<open>events.map(event => event.args.tokenId.toNumber())\<close>: the first throw ends the map.\<close>

fun map_toNumber :: "transfer_event list \<Rightarrow> error + nat list" where
  "map_toNumber [] = Inr []"
| "map_toNumber (event # events) =
     (case toNumber (args_tokenId event) of
        Inl err \<Rightarrow> Inl err
      | Inr n \<Rightarrow>
          (case map_toNumber events of
             Inl err \<Rightarrow> Inl err
           | Inr ns \<Rightarrow> Inr (n # ns)))"

text \<open>
  \<open>[...new Set(xs)]\<close>: a set keeps its elements in insertion order, and adding an element
  that is already there changes nothing, so the first occurrence of each value stays.
\<close>

definition set_add :: "nat list \<Rightarrow> nat \<Rightarrow> nat list" where
  "set_add s x = (if x \<in> set s then s else s @ [x])"

definition new_Set :: "nat list \<Rightarrow> nat list" where
  "new_Set xs = foldl set_add [] xs"

text \<open>The decimal numeral of a number, as a template literal prints it.\<close>

fun string_of_nat :: "nat \<Rightarrow> string" where
  "string_of_nat n =
     (if n < 10 then [''0123456789'' ! n]
      else string_of_nat (n div 10) @ [''0123456789'' ! (n mod 10)])"

declare string_of_nat.simps [simp del]

text \<open>The object built in the \<open>catch\<close> of the metadata fetch.\<close>

definition placeholder_metadata :: "nat \<Rightarrow> ticket_metadata" where
  "placeholder_metadata tid =
     \<lparr>md_name = Some (''Ticket #'' @ string_of_nat tid),
      md_description = Some ''Metadata unavailable'',
      image = Some []\<rparr>"

text \<open>The inner \<open>try\<close>/\<open>catch\<close>: translate the URI, fetch, parse; any throw gives the placeholder.\<close>

definition fetchMetadata :: "environment \<Rightarrow> nat \<Rightarrow> string \<Rightarrow> ticket_metadata" where
  "fetchMetadata env tid tokenURI =
     (case ipfsToHttp env tokenURI of
        Inl err \<Rightarrow> placeholder_metadata tid
      | Inr httpUrl \<Rightarrow>
          (case fetch env httpUrl of
             Inl err \<Rightarrow> placeholder_metadata tid
           | Inr response \<Rightarrow>
               (case json env response of
                  Inl err \<Rightarrow> placeholder_metadata tid
                | Inr parsed \<Rightarrow> parsed)))"

text \<open>
  One turn of the \<open>for\<close> loop: the record to push, or a skip, either by the \<open>continue\<close> of the
  ownership test or by the \<open>catch\<close> of the outer \<open>try\<close>.
\<close>

datatype token_result = Resolved ticket_record | NotOwner | Failed error

definition processToken :: "environment \<Rightarrow> contract \<Rightarrow> string \<Rightarrow> nat \<Rightarrow> token_result" where
  "processToken env c account tid =
     (case ownerOf c tid of
        Inl err \<Rightarrow> Failed err
      | Inr currentOwner \<Rightarrow>
          if toLowerCase currentOwner \<noteq> toLowerCase account then NotOwner
          else
            (case getTicket env tid of
               Inl err \<Rightarrow> Failed err
             | Inr ticket \<Rightarrow>
                 (case getEvent env (ticket_eventId ticket) of
                    Inl err \<Rightarrow> Failed err
                  | Inr event \<Rightarrow>
                      (case getTokenURI env tid of
                         Inl err \<Rightarrow> Failed err
                       | Inr tokenURI \<Rightarrow>
                           Resolved
                             \<lparr>tokenId = tid,
                              ticket_record_eventId = ticket_eventId ticket,
                              eventName = event_name event,
                              eventDate = event_date event,
                              used = ticket_used ticket,
                              locked = ticket_locked ticket,
                              metadata = fetchMetadata env tid tokenURI\<rparr>))))"

text \<open>The loop over \<open>tokenIds\<close>, with the array \<open>userTickets\<close> it pushes onto.\<close>

fun processTokens ::
  "environment \<Rightarrow> contract \<Rightarrow> string \<Rightarrow> nat list \<Rightarrow> ticket_record list \<Rightarrow> ticket_record list"
where
  "processTokens env c account [] userTickets = userTickets"
| "processTokens env c account (tid # tokenIds) userTickets =
     (case processToken env c account tid of
        Resolved r \<Rightarrow> processTokens env c account tokenIds (userTickets @ [r])
      | NotOwner \<Rightarrow> processTokens env c account tokenIds userTickets
      | Failed err \<Rightarrow> processTokens env c account tokenIds userTickets)"

text \<open>
  \<open>Array.prototype.sort\<close> with a comparator: the result is ordered by the comparator and
  the sort is stable. For a consistent comparator these two facts fix the result, which a
  stable insertion sort computes.
\<close>

fun insert_sorted :: "('a \<Rightarrow> 'a \<Rightarrow> int) \<Rightarrow> 'a \<Rightarrow> 'a list \<Rightarrow> 'a list" where
  "insert_sorted cmp x [] = [x]"
| "insert_sorted cmp x (y # ys) =
     (if cmp x y \<le> 0 then x # y # ys else y # insert_sorted cmp x ys)"

definition array_sort :: "('a \<Rightarrow> 'a \<Rightarrow> int) \<Rightarrow> 'a list \<Rightarrow> 'a list" where
  "array_sort cmp xs = foldr (insert_sorted cmp) xs []"

definition by_eventDate :: "ticket_record \<Rightarrow> ticket_record \<Rightarrow> int" where
  "by_eventDate a b = eventDate a - eventDate b"

text \<open>
  The effect as a whole: \<open>Inr\<close> carries the array given to \<open>setTickets\<close>, \<open>Inl\<close> the error
  caught by the outer \<open>try\<close>, after which the page shows its failure message.
\<close>

definition fetchUserTickets :: "environment \<Rightarrow> string \<Rightarrow> error + ticket_record list" where
  "fetchUserTickets env account =
     (case getContract env of
        Inl err \<Rightarrow> Inl err
      | Inr c \<Rightarrow>
          (case queryFilter c account of
             Inl err \<Rightarrow> Inl err
           | Inr events \<Rightarrow>
               (case map_toNumber events of
                  Inl err \<Rightarrow> Inl err
                | Inr ns \<Rightarrow>
                    Inr (array_sort by_eventDate
                           (processTokens env c account (new_Set ns) [])))))"

section \<open>MyTickets.jsx: grouping and rendering\<close>

text \<open>
  \<open>new Date(date) > new Date()\<close>, with the current time as a parameter: the code reads
  the clock at every call, the model once for a rendering. A number outside the range of
  \<open>Date\<close> gives an invalid date, which compares false.
\<close>

definition isUpcoming :: "int \<Rightarrow> int \<Rightarrow> bool" where
  "isUpcoming now date = (\<bar>date\<bar> \<le> 8640000000000000 \<and> date > now)"

definition upcomingTickets :: "int \<Rightarrow> ticket_record list \<Rightarrow> ticket_record list" where
  "upcomingTickets now tickets =
     filter (\<lambda>ticket. isUpcoming now (eventDate ticket) \<and> \<not> used ticket) tickets"

definition usedTickets :: "ticket_record list \<Rightarrow> ticket_record list" where
  "usedTickets tickets = filter (\<lambda>ticket. used ticket) tickets"

definition expiredTickets :: "int \<Rightarrow> ticket_record list \<Rightarrow> ticket_record list" where
  "expiredTickets now tickets =
     filter (\<lambda>ticket. \<not> isUpcoming now (eventDate ticket) \<and> \<not> used ticket) tickets"

text \<open>\<open>x || ''\<close> on an optional string.\<close>

definition or_empty :: "string option \<Rightarrow> string" where
  "or_empty x = (case x of None \<Rightarrow> [] | Some s \<Rightarrow> s)"

text \<open>The event object that \<open>renderTicketCard\<close> builds for \<open>getTicketFallbackImage\<close>.\<close>

definition render_event :: "ticket_record \<Rightarrow> event_arg" where
  "render_event ticket =
     \<lparr>eventId = ticket_record_eventId ticket,
      name = Some (eventName ticket),
      description = Some (or_empty (md_description (metadata ticket)))\<rparr>"

text \<open>The call of \<open>getTicketFallbackImage\<close> in \<open>renderTicketCard\<close>.\<close>

definition render_fallback :: "ticket_record \<Rightarrow> string option" where
  "render_fallback ticket =
     getTicketFallbackImage (Some (render_event ticket)) (JNumber (int (tokenId ticket)))"

text \<open>
  The metadata of a ticket as the page holds it. \<open>response.json()\<close> resolves to any JSON
  value and the page stores it without a check of its shape, so for the \<open>src\<close> expression
  the metadata is a JSON value and not the record above. Of a number the expression only
  asks whether it is zero.
\<close>

datatype json_value =
    Json_null
  | Json_bool bool
  | Json_number real
  | Json_string string
  | Json_array "json_value list"
  | Json_object "(string \<times> json_value) list"

text \<open>The truthiness of a JSON value: \<open>null\<close>, \<open>false\<close>, zero and the empty string are falsy.\<close>

fun truthy :: "json_value \<Rightarrow> bool" where
  "truthy Json_null = False"
| "truthy (Json_bool b) = b"
| "truthy (Json_number x) = (x \<noteq> 0)"
| "truthy (Json_string s) = (s \<noteq> [])"
| "truthy (Json_array xs) = True"
| "truthy (Json_object members) = True"

text \<open>
  The own member of an object under a key, the last one when the document repeats the key.
  The keys read here, \<open>image\<close> and \<open>description\<close>, are on no prototype, so on a
  number, a boolean, a string or an array the read gives \<open>undefined\<close>.
\<close>

definition member_value :: "json_value \<Rightarrow> string \<Rightarrow> json_value option" where
  "member_value v key = (case v of Json_object members \<Rightarrow> map_of (rev members) key | _ \<Rightarrow> None)"

text \<open>\<open>v.key\<close> for these keys: a \<open>TypeError\<close> on \<open>null\<close>.\<close>

definition get_member :: "json_value \<Rightarrow> string \<Rightarrow> error + json_value option" where
  "get_member v key =
     (if v = Json_null then Inl (Error ''TypeError'') else Inr (member_value v key))"

text \<open>\<open>x || ''\<close> on a value that may be \<open>undefined\<close>.\<close>

definition or_empty_string :: "json_value option \<Rightarrow> json_value" where
  "or_empty_string x =
     (case x of None \<Rightarrow> Json_string [] | Some v \<Rightarrow> if truthy v then v else Json_string [])"

text \<open>
  \<open>getTicketFallbackImage\<close> again, for an event whose fields hold any value. The test
  \<open>x && x.toLowerCase().includes('cultural')\<close> throws a \<open>TypeError\<close> on a truthy value
  that is not a string, and the description is not looked at when the name matches.
\<close>

record raw_event =
  raw_eventId :: nat
  raw_name :: "json_value option"
  raw_description :: "json_value option"

definition mentions_cultural_raw :: "json_value option \<Rightarrow> error + bool" where
  "mentions_cultural_raw x =
     (case x of
        None \<Rightarrow> Inr False
      | Some v \<Rightarrow>
          if \<not> truthy v then Inr False
          else
            (case v of
               Json_string s \<Rightarrow> Inr (str_includes (toLowerCase s) ''cultural'')
             | _ \<Rightarrow> Inl (Error ''TypeError'')))"

definition getTicketFallbackImage_raw :: "raw_event option \<Rightarrow> js_value \<Rightarrow> error + string option" where
  "getTicketFallbackImage_raw event ticketId =
     (case event of
        None \<Rightarrow> Inr (js_index DEFAULT_TICKET_IMAGES (Some 0))
      | Some ev \<Rightarrow>
          if ticketId = JNumber 0 \<or> ticketId = JString ''0''
          then Inr (js_index CULTURAL_TICKET_IMAGES (Some 0))
          else
            (case mentions_cultural_raw (raw_name ev) of
               Inl err \<Rightarrow> Inl err
             | Inr by_name \<Rightarrow>
                 if by_name
                 then Inr (js_index CULTURAL_TICKET_IMAGES
                             (js_rem (number_or_zero ticketId) (int (length CULTURAL_TICKET_IMAGES))))
                 else
                   (case mentions_cultural_raw (raw_description ev) of
                      Inl err \<Rightarrow> Inl err
                    | Inr by_description \<Rightarrow>
                        if by_description
                        then Inr (js_index CULTURAL_TICKET_IMAGES
                                    (js_rem (number_or_zero ticketId)
                                       (int (length CULTURAL_TICKET_IMAGES))))
                        else Inr (js_index DEFAULT_TICKET_IMAGES
                                    (js_rem (number_or_zero ticketId)
                                       (int (length DEFAULT_TICKET_IMAGES)))))))"

text \<open>The ticket object that \<open>renderTicketCard\<close> receives.\<close>

record raw_ticket =
  raw_tokenId :: nat
  raw_ticket_eventId :: nat
  raw_eventName :: string
  raw_eventDate :: int
  raw_used :: bool
  raw_locked :: bool
  raw_metadata :: json_value

text \<open>
  The call of \<open>getTicketFallbackImage\<close> in the \<open>src\<close> expression; the object literal reads
  \<open>ticket.metadata.description\<close>.
\<close>

definition render_fallback_raw :: "raw_ticket \<Rightarrow> error + string option" where
  "render_fallback_raw ticket =
     (case get_member (raw_metadata ticket) ''description'' of
        Inl err \<Rightarrow> Inl err
      | Inr d \<Rightarrow>
          getTicketFallbackImage_raw
            (Some \<lparr>raw_eventId = raw_ticket_eventId ticket,
                   raw_name = Some (Json_string (raw_eventName ticket)),
                   raw_description = Some (or_empty_string d)\<rparr>)
            (JNumber (int (raw_tokenId ticket))))"

text \<open>
  The \<open>src\<close> expression of the image: \<open>Inl\<close> when its evaluation throws, \<open>Inr None\<close> for
  \<open>undefined\<close>. \<open>translate\<close> is \<open>ipfsToHttp\<close> of \<open>ipfsUtils\<close>, applied to whatever
  \<open>metadata.image\<close> holds.
\<close>

definition img_src :: "(json_value \<Rightarrow> error + string) \<Rightarrow> raw_ticket \<Rightarrow> error + string option" where
  "img_src translate ticket =
     (case get_member (raw_metadata ticket) ''image'' of
        Inl err \<Rightarrow> Inl err
      | Inr None \<Rightarrow> render_fallback_raw ticket
      | Inr (Some v) \<Rightarrow>
          if truthy v then
            (case translate v of Inl err \<Rightarrow> Inl err | Inr url \<Rightarrow> Inr (Some url))
          else render_fallback_raw ticket)"


definition string_or_falsy :: "json_value option \<Rightarrow> bool" where
  "string_or_falsy x =
     (case x of None \<Rightarrow> True | Some (Json_string s) \<Rightarrow> True | Some v \<Rightarrow> \<not> truthy v)"

definition text_of :: "json_value \<Rightarrow> string" where
  "text_of v = (case v of Json_string s \<Rightarrow> s | _ \<Rightarrow> [])"

text \<open>The typed metadata as a JSON object, and a typed record as the ticket object of a card.\<close>

definition member_of :: "string \<Rightarrow> string option \<Rightarrow> (string \<times> json_value) list" where
  "member_of key x = (case x of None \<Rightarrow> [] | Some s \<Rightarrow> [(key, Json_string s)])"

definition to_json :: "ticket_metadata \<Rightarrow> json_value" where
  "to_json m =
     Json_object
       (member_of ''name'' (md_name m) @ member_of ''description'' (md_description m)
        @ member_of ''image'' (image m))"

definition raw_of :: "ticket_record \<Rightarrow> raw_ticket" where
  "raw_of ticket =
     \<lparr>raw_tokenId = tokenId ticket,
      raw_ticket_eventId = ticket_record_eventId ticket,
      raw_eventName = eventName ticket,
      raw_eventDate = eventDate ticket,
      raw_used = used ticket,
      raw_locked = locked ticket,
      raw_metadata = to_json (metadata ticket)\<rparr>"

text \<open>The \<open>onError\<close> handler of the image: the source it puts in place of the failed one.\<close>

definition onError_src :: "ticket_record \<Rightarrow> string" where
  "onError_src ticket =
     (if tokenId ticket = 0
      then ''https://img.freepik.com/free-photo/traditional-cultural-dance-performance-stage_53876-138776.jpg''
      else ''https://img.freepik.com/free-vector/realistic-concert-entrance-tickets-set_1017-30605.jpg'')"

section \<open>Conditions on the lookups of one token\<close>

text \<open>
  The current owner of the token is the account, under the comparison of the loop;
  a lookup that throws gives no owner.
\<close>

definition currently_owned :: "contract \<Rightarrow> string \<Rightarrow> nat \<Rightarrow> bool" where
  "currently_owned c account tid =
     (case ownerOf c tid of
        Inl err \<Rightarrow> False
      | Inr currentOwner \<Rightarrow> toLowerCase currentOwner = toLowerCase account)"

text \<open>The ticket state, the event descriptor and the token URI of the token can be read.\<close>

definition details_available :: "environment \<Rightarrow> nat \<Rightarrow> bool" where
  "details_available env tid =
     (case getTicket env tid of
        Inl err \<Rightarrow> False
      | Inr ticket \<Rightarrow>
          (case getEvent env (ticket_eventId ticket) of
             Inl err \<Rightarrow> False
           | Inr event \<Rightarrow>
               (case getTokenURI env tid of Inl err \<Rightarrow> False | Inr tokenURI \<Rightarrow> True)))"

text \<open>What one turn of the loop adds to \<open>userTickets\<close>.\<close>

definition pushed :: "token_result \<Rightarrow> ticket_record list" where
  "pushed res = (case res of Resolved r \<Rightarrow> [r] | NotOwner \<Rightarrow> [] | Failed err \<Rightarrow> [])"

text \<open>The inner \<open>try\<close> throws: at the translation of the URI, at the fetch or at the parse.\<close>

definition metadata_fetch_fails :: "environment \<Rightarrow> string \<Rightarrow> bool" where
  "metadata_fetch_fails env tokenURI =
     (case ipfsToHttp env tokenURI of
        Inl err \<Rightarrow> True
      | Inr httpUrl \<Rightarrow>
          (case fetch env httpUrl of
             Inl err \<Rightarrow> True
           | Inr response \<Rightarrow> (case json env response of Inl err \<Rightarrow> True | Inr parsed \<Rightarrow> False)))"

text \<open>
  The ownership check throws, or it passes and then the fetch of the ticket state or of
  the event descriptor throws.
\<close>

definition lookup_fails :: "environment \<Rightarrow> contract \<Rightarrow> string \<Rightarrow> nat \<Rightarrow> bool" where
  "lookup_fails env c account tid =
     (case ownerOf c tid of
        Inl err \<Rightarrow> True
      | Inr currentOwner \<Rightarrow>
          toLowerCase currentOwner = toLowerCase account \<and>
          (case getTicket env tid of
             Inl err \<Rightarrow> True
           | Inr ticket \<Rightarrow>
               (case getEvent env (ticket_eventId ticket) of Inl err \<Rightarrow> True | Inr event \<Rightarrow> False)))"

section \<open>Example data\<close>

text \<open>A ticket of the event \<open>Rock Concert\<close> whose metadata is the placeholder.\<close>

definition example_ticket :: "nat \<Rightarrow> int \<Rightarrow> bool \<Rightarrow> ticket_record" where
  "example_ticket tid date u =
     \<lparr>tokenId = tid, ticket_record_eventId = 4, eventName = ''Rock Concert'', eventDate = date,
      used = u, locked = False,
      metadata = \<lparr>md_name = Some ''Ticket'', md_description = Some ''Metadata unavailable'',
                  image = Some []\<rparr>\<rparr>"

definition example_tickets :: "ticket_record list" where
  "example_tickets =
     [example_ticket 7 1900000000000 True,
      example_ticket 3 1800000000000 False,
      example_ticket 5 1600000000000 False]"

text \<open>
  A log with five transfers to the account: token 3 twice, and tokens 7, 9 and 5. Token 9
  has gone to another owner, the ticket of token 7 is used, and the metadata of token 5
  cannot be fetched. In \<open>failing_env\<close> the ticket state of token 7 cannot be read.
\<close>

definition example_event :: "nat \<Rightarrow> transfer_event" where
  "example_event tid = \<lparr>from_address = ''0x0000'', to_address = ''0xAbC1'', args_tokenId = tid\<rparr>"

definition example_events :: "transfer_event list" where
  "example_events = [example_event 3, example_event 7, example_event 3, example_event 9, example_event 5]"

definition example_contract :: contract where
  "example_contract =
     \<lparr>queryFilter = (\<lambda>account. Inr example_events),
      ownerOf = (\<lambda>tid. if tid = 9 then Inr ''0xDEAD'' else Inr ''0xABC1'')\<rparr>"

definition example_env :: environment where
  "example_env =
     \<lparr>getContract = Inr example_contract,
      getTicket = (\<lambda>tid. Inr \<lparr>ticket_eventId = tid, ticket_used = (tid = 7), ticket_locked = False\<rparr>),
      getEvent = (\<lambda>eid. Inr \<lparr>event_name = ''Rock Concert'', event_date = 1000 * (10 - int eid)\<rparr>),
      getTokenURI = (\<lambda>tid. Inr (''ipfs://meta/'' @ string_of_nat tid)),
      ipfsToHttp = (\<lambda>uri. Inr (''https://ipfs.io/ipfs/'' @ drop 7 uri)),
      fetch = (\<lambda>url. if url = ''https://ipfs.io/ipfs/meta/5'' then Inl (Error ''network'') else Inr ''body''),
      json = (\<lambda>body. Inr \<lparr>md_name = Some ''VIP'', md_description = Some ''Front row'',
                             image = Some ''ipfs://img''\<rparr>)\<rparr>"

definition failing_env :: environment where
  "failing_env =
     example_env
       \<lparr>getTicket := (\<lambda>tid. if tid = 7 then Inl (Error ''call failed'') else getTicket example_env tid)\<rparr>"

definition resolved_example :: "nat \<Rightarrow> ticket_record" where
  "resolved_example tid =
     \<lparr>tokenId = tid, ticket_record_eventId = tid, eventName = ''Rock Concert'',
      eventDate = 1000 * (10 - int tid), used = (tid = 7), locked = False,
      metadata = \<lparr>md_name = Some ''VIP'', md_description = Some ''Front row'',
                  image = Some ''ipfs://img''\<rparr>\<rparr>"




section \<open>Facts about the string helpers\<close>

lemma str_includes_sublist: "str_includes s sub \<longleftrightarrow> sublist sub s"
  by (induction s) (auto simp: sublist_Cons_right)

lemma js_rem_nat: "0 < m \<Longrightarrow> js_rem (int n) (int m) = Some (int (n mod m))"
  by (cases "n = 0") (simp_all add: js_rem_def zmod_int)

lemma js_index_nat: "k < length arr \<Longrightarrow> js_index arr (Some (int k)) = Some (arr ! k)"
  by (simp add: js_index_def)

lemma length_DEFAULT_TICKET_IMAGES: "length DEFAULT_TICKET_IMAGES = 5"
  by (simp add: DEFAULT_TICKET_IMAGES_def)

lemma length_CULTURAL_TICKET_IMAGES: "length CULTURAL_TICKET_IMAGES = 5"
  by (simp add: CULTURAL_TICKET_IMAGES_def)

lemma table_lookup_nat:
  assumes "length arr = 5"
  shows "js_index arr (js_rem (int n) (int (length arr))) = Some (arr ! (n mod 5))"
proof -
  have "js_rem (int n) (int (length arr)) = Some (int (n mod 5))"
    using assms js_rem_nat [of 5 n] by simp
  moreover have "n mod 5 < length arr"
    using assms by simp
  ultimately show ?thesis
    by (simp add: js_index_nat)
qed

lemma toLowerCase_append: "toLowerCase (a @ b) = toLowerCase a @ toLowerCase b"
  by (simp add: toLowerCase_def)

lemma toLowerCase_cultural: "toLowerCase ''cultural'' = ''cultural''"
  by (simp add: toLowerCase_def toLowerChar_def upper_letters_def lower_letters_def)

lemma str_includes_toLowerCase:
  "str_includes (toLowerCase s) w \<longleftrightarrow> (\<exists>p m q. s = p @ m @ q \<and> toLowerCase m = w)"
proof
  assume "str_includes (toLowerCase s) w"
  then obtain ps ss where eq: "map toLowerChar s = ps @ w @ ss"
    by (auto simp: str_includes_sublist sublist_def toLowerCase_def)
  then obtain p r where s: "s = p @ r" and r: "w @ ss = map toLowerChar r"
    by (metis map_eq_append_conv)
  from r obtain m q where "r = m @ q" and "w = map toLowerChar m"
    by (metis append_eq_map_conv)
  with s show "\<exists>p m q. s = p @ m @ q \<and> toLowerCase m = w"
    by (auto simp: toLowerCase_def)
next
  assume "\<exists>p m q. s = p @ m @ q \<and> toLowerCase m = w"
  then obtain p m q where "s = p @ m @ q" and "toLowerCase m = w"
    by blast
  then have "toLowerCase s = toLowerCase p @ w @ toLowerCase q"
    by (simp add: toLowerCase_append)
  then show "str_includes (toLowerCase s) w"
    unfolding str_includes_sublist sublist_def by blast
qed

lemma mentions_cultural_iff: "mentions_cultural x \<longleftrightarrow> contains_ignoring_case x ''cultural''"
proof (cases x)
  case None
  then show ?thesis by (simp add: mentions_cultural_def contains_ignoring_case_def)
next
  case (Some s)
  have "str_includes (toLowerCase s) ''cultural'' \<Longrightarrow> s \<noteq> []"
    by (cases s) (simp_all add: toLowerCase_def)
  with Some show ?thesis
    unfolding mentions_cultural_def contains_ignoring_case_def toLowerCase_cultural
    by (auto simp: str_includes_toLowerCase)
qed

section \<open>The fallback image selector\<close>

text \<open>
  C2. For every event descriptor, whatever its name and description, the selector applied
  to that event and ticket id 0 returns the first entry of the cultural image table, the
  fixed cultural showcase image. The same holds for the ticket id given as the string
  \<open>'0'\<close>.
\<close>

theorem fallback_token_zero_is_showcase:
  "getTicketFallbackImage (Some ev) (JNumber 0) = Some (CULTURAL_TICKET_IMAGES ! 0)
   \<and> getTicketFallbackImage (Some ev) (JString ''0'') = Some (CULTURAL_TICKET_IMAGES ! 0)
   \<and> CULTURAL_TICKET_IMAGES ! 0 =
       ''https://img.freepik.com/free-photo/traditional-cultural-dance-performance-stage_53876-138776.jpg''"
  by (simp add: getTicketFallbackImage_def js_index_def CULTURAL_TICKET_IMAGES_def)

text \<open>
  C10. When no event is passed, the selector returns the first entry of the default ticket
  image table for every ticket id, the id 0 included: the missing-event guard comes before
  the rule for ticket 0.
\<close>

theorem fallback_without_event:
  "getTicketFallbackImage None ticketId = Some (DEFAULT_TICKET_IMAGES ! 0)
   \<and> getTicketFallbackImage None (JNumber 0) \<noteq> Some (CULTURAL_TICKET_IMAGES ! 0)"
  by (simp add: getTicketFallbackImage_def js_index_def DEFAULT_TICKET_IMAGES_def
      CULTURAL_TICKET_IMAGES_def)

text \<open>
  C3. For every event descriptor and every non-zero token id \<open>n\<close>: when the name or the
  description of the event contains the word cultural, letter case aside, the selector
  returns the cultural image at index \<open>n\<close> modulo the size of the cultural table, and
  otherwise the default ticket image at index \<open>n\<close> modulo the size of the default table.
  The selector is a function of its two arguments and the constant tables alone, so equal
  inputs give equal results.
\<close>

theorem fallback_nonzero_token:
  assumes "n \<noteq> 0"
  shows "getTicketFallbackImage (Some ev) (JNumber (int n)) =
           Some (if contains_ignoring_case (name ev) ''cultural''
                    \<or> contains_ignoring_case (description ev) ''cultural''
                 then CULTURAL_TICKET_IMAGES ! (n mod length CULTURAL_TICKET_IMAGES)
                 else DEFAULT_TICKET_IMAGES ! (n mod length DEFAULT_TICKET_IMAGES))"
proof -
  have c: "js_index CULTURAL_TICKET_IMAGES (js_rem (int n) (int (length CULTURAL_TICKET_IMAGES)))
             = Some (CULTURAL_TICKET_IMAGES ! (n mod 5))"
    by (rule table_lookup_nat) (rule length_CULTURAL_TICKET_IMAGES)
  have d: "js_index DEFAULT_TICKET_IMAGES (js_rem (int n) (int (length DEFAULT_TICKET_IMAGES)))
             = Some (DEFAULT_TICKET_IMAGES ! (n mod 5))"
    by (rule table_lookup_nat) (rule length_DEFAULT_TICKET_IMAGES)
  have "is_cultural_event ev \<longleftrightarrow>
          contains_ignoring_case (name ev) ''cultural''
          \<or> contains_ignoring_case (description ev) ''cultural''"
    by (simp add: is_cultural_event_def mentions_cultural_iff)
  with assms c d show ?thesis
    by (simp add: getTicketFallbackImage_def number_or_zero_def
        length_CULTURAL_TICKET_IMAGES length_DEFAULT_TICKET_IMAGES)
qed

theorem fallback_nonzero_token_witness:
  "(7::nat) \<noteq> 0
   \<and> getTicketFallbackImage
        (Some \<lparr>eventId = 1, name = Some ''Spring CULTURAL Fest'', description = None\<rparr>) (JNumber 7)
       = Some ''https://img.freepik.com/free-photo/woman-dancing-traditional-chinese-clothing_23-2149064502.jpg''
   \<and> getTicketFallbackImage
        (Some \<lparr>eventId = 1, name = Some ''Rock Concert'', description = Some ''''\<rparr>) (JNumber 7)
       = Some ''https://img.freepik.com/free-vector/cinema-tickets-set_1017-30634.jpg''"
  using fallback_nonzero_token [of 7 "\<lparr>eventId = 1, name = Some ''Spring CULTURAL Fest'', description = None\<rparr>"]
    fallback_nonzero_token [of 7 "\<lparr>eventId = 1, name = Some ''Rock Concert'', description = Some ''''\<rparr>"]
  by (simp add: mentions_cultural_iff [symmetric] mentions_cultural_def toLowerCase_def
      toLowerChar_def upper_letters_def lower_letters_def
      CULTURAL_TICKET_IMAGES_def DEFAULT_TICKET_IMAGES_def)

section \<open>Sorting and grouping\<close>

text \<open>The comparator sort is the library's stable sort on the key \<open>eventDate\<close>.\<close>

lemma insert_sorted_by_eventDate: "insert_sorted by_eventDate x ys = insort_key eventDate x ys"
  by (induction ys) (simp_all add: by_eventDate_def)

lemma array_sort_by_eventDate: "array_sort by_eventDate xs = sort_key eventDate xs"
proof -
  have "insert_sorted by_eventDate = insort_key eventDate"
    by (intro ext) (rule insert_sorted_by_eventDate)
  then show ?thesis
    by (simp add: array_sort_def sort_key_def)
qed

lemma sorted_bucket:
  "sorted (map eventDate (filter P (array_sort by_eventDate xs)))"
  unfolding array_sort_by_eventDate by (rule sorted_filter) (rule sorted_sort_key)

lemma stable_bucket:
  "filter (\<lambda>t. eventDate t = d) (filter P (array_sort by_eventDate xs))
     = filter (\<lambda>t. eventDate t = d) (filter P xs)"
proof -
  have "filter (\<lambda>t. eventDate t = d) (filter P (sort_key eventDate xs))
          = filter P (filter (\<lambda>t. eventDate t = d) (sort_key eventDate xs))"
    by (simp add: conj_commute)
  also have "\<dots> = filter P (filter (\<lambda>t. eventDate t = d) xs)"
    by (simp only: sort_key_stable)
  also have "\<dots> = filter (\<lambda>t. eventDate t = d) (filter P xs)"
    by (simp add: conj_commute)
  finally show ?thesis
    by (simp only: array_sort_by_eventDate)
qed

text \<open>The array that a completed pass hands to the page is the sorted array of the loop.\<close>

lemma fetchUserTickets_sorted:
  "fetchUserTickets env account = Inr tickets \<Longrightarrow>
     \<exists>c tokenIds. tickets = array_sort by_eventDate (processTokens env c account tokenIds [])"
  by (auto simp: fetchUserTickets_def split: sum.splits)

text \<open>
  C9. Whatever array \<open>xs\<close> the loop has built, each of the three groups taken from the
  sorted array is in non-decreasing order of \<open>eventDate\<close>, and for every date \<open>d\<close> the
  records of a group with that date stand in the order they had in \<open>xs\<close>: the sort is
  stable, and the order of a group comes from the sort alone.
\<close>

theorem buckets_sorted_and_stable:
  "sorted (map eventDate (upcomingTickets now (array_sort by_eventDate xs)))
   \<and> sorted (map eventDate (usedTickets (array_sort by_eventDate xs)))
   \<and> sorted (map eventDate (expiredTickets now (array_sort by_eventDate xs)))
   \<and> filter (\<lambda>t. eventDate t = d) (upcomingTickets now (array_sort by_eventDate xs))
       = filter (\<lambda>t. eventDate t = d) (upcomingTickets now xs)
   \<and> filter (\<lambda>t. eventDate t = d) (usedTickets (array_sort by_eventDate xs))
       = filter (\<lambda>t. eventDate t = d) (usedTickets xs)
   \<and> filter (\<lambda>t. eventDate t = d) (expiredTickets now (array_sort by_eventDate xs))
       = filter (\<lambda>t. eventDate t = d) (expiredTickets now xs)"
  unfolding upcomingTickets_def usedTickets_def expiredTickets_def
  by (simp only: sorted_bucket stable_bucket simp_thms)

theorem buckets_sorted_and_stable_witness:
  "upcomingTickets 1700000000000
     (array_sort by_eventDate
        [example_ticket 1 1900000000000 False, example_ticket 2 1800000000000 False,
         example_ticket 3 1900000000000 False])
     = [example_ticket 2 1800000000000 False, example_ticket 1 1900000000000 False,
        example_ticket 3 1900000000000 False]
   \<and> filter (\<lambda>t. eventDate t = 1900000000000)
        (upcomingTickets 1700000000000
           (array_sort by_eventDate
              [example_ticket 1 1900000000000 False, example_ticket 2 1800000000000 False,
               example_ticket 3 1900000000000 False]))
       = [example_ticket 1 1900000000000 False, example_ticket 3 1900000000000 False]"
  using buckets_sorted_and_stable
          [of 1700000000000
              "[example_ticket 1 1900000000000 False, example_ticket 2 1800000000000 False,
                example_ticket 3 1900000000000 False]"
              1900000000000]
  by (simp add: array_sort_def by_eventDate_def example_ticket_def upcomingTickets_def
      isUpcoming_def)

lemma buckets_mset:
  "mset (upcomingTickets now ts) + mset (usedTickets ts) + mset (expiredTickets now ts) = mset ts"
  unfolding upcomingTickets_def usedTickets_def expiredTickets_def
  by (induction ts) auto

text \<open>
  C5. For every array of tickets and every current time, the three groups together hold
  each record of the array exactly as often as the array does, no record is in two groups,
  distinct token ids stay distinct across the groups, and a used ticket is in the used
  group and in no other, also when its date lies in the future.
\<close>

theorem buckets_partition:
  "mset (upcomingTickets now ts) + mset (usedTickets ts) + mset (expiredTickets now ts) = mset ts
   \<and> set (upcomingTickets now ts) \<inter> set (usedTickets ts) = {}
   \<and> set (upcomingTickets now ts) \<inter> set (expiredTickets now ts) = {}
   \<and> set (usedTickets ts) \<inter> set (expiredTickets now ts) = {}
   \<and> (distinct (map tokenId ts) \<longrightarrow>
        distinct (map tokenId (upcomingTickets now ts @ usedTickets ts @ expiredTickets now ts)))
   \<and> (t \<in> set ts \<and> used t \<longrightarrow>
        t \<in> set (usedTickets ts) \<and> t \<notin> set (upcomingTickets now ts)
        \<and> t \<notin> set (expiredTickets now ts))"
proof -
  have m: "mset (upcomingTickets now ts) + mset (usedTickets ts) + mset (expiredTickets now ts) = mset ts"
    by (rule buckets_mset)
  have d: "distinct (map tokenId (upcomingTickets now ts @ usedTickets ts @ expiredTickets now ts))"
    if "distinct (map tokenId ts)"
  proof -
    have "mset (map tokenId (upcomingTickets now ts @ usedTickets ts @ expiredTickets now ts))
            = mset (map tokenId ts)"
      using m by (metis mset_append mset_map add.assoc)
    then show ?thesis
      using that by (metis mset_eq_imp_distinct_iff)
  qed
  have rest: "set (upcomingTickets now ts) \<inter> set (usedTickets ts) = {}
     \<and> set (upcomingTickets now ts) \<inter> set (expiredTickets now ts) = {}
     \<and> set (usedTickets ts) \<inter> set (expiredTickets now ts) = {}
     \<and> (t \<in> set ts \<and> used t \<longrightarrow>
        t \<in> set (usedTickets ts) \<and> t \<notin> set (upcomingTickets now ts)
        \<and> t \<notin> set (expiredTickets now ts))"
    unfolding upcomingTickets_def usedTickets_def expiredTickets_def by auto
  from m d rest show ?thesis by blast
qed

theorem buckets_partition_witness:
  "mset (upcomingTickets 1700000000000 example_tickets) + mset (usedTickets example_tickets)
     + mset (expiredTickets 1700000000000 example_tickets) = mset example_tickets
   \<and> distinct (map tokenId example_tickets)
   \<and> distinct (map tokenId (upcomingTickets 1700000000000 example_tickets
         @ usedTickets example_tickets @ expiredTickets 1700000000000 example_tickets))
   \<and> used (example_ticket 7 1900000000000 True)
   \<and> eventDate (example_ticket 7 1900000000000 True) > 1700000000000
   \<and> usedTickets example_tickets = [example_ticket 7 1900000000000 True]
   \<and> upcomingTickets 1700000000000 example_tickets = [example_ticket 3 1800000000000 False]
   \<and> expiredTickets 1700000000000 example_tickets = [example_ticket 5 1600000000000 False]"
  using buckets_partition [of 1700000000000 example_tickets "example_ticket 7 1900000000000 True"]
  by (simp add: example_tickets_def example_ticket_def upcomingTickets_def usedTickets_def
      expiredTickets_def isUpcoming_def)

section \<open>The image of a ticket card\<close>

lemma default_entry_eq_first:
  "k < 5 \<Longrightarrow> DEFAULT_TICKET_IMAGES ! k = DEFAULT_TICKET_IMAGES ! 0 \<longleftrightarrow> k \<noteq> 1 \<and> k \<noteq> 2"
proof -
  assume "k < 5"
  then have "k = 0 \<or> k = 1 \<or> k = 2 \<or> k = 3 \<or> k = 4" by arith
  then show ?thesis
    by (auto simp: DEFAULT_TICKET_IMAGES_def)
qed

lemma cultural_entry_neq_default:
  "k < 5 \<Longrightarrow> CULTURAL_TICKET_IMAGES ! k \<noteq> DEFAULT_TICKET_IMAGES ! 0"
proof -
  assume "k < 5"
  then have "k = 0 \<or> k = 1 \<or> k = 2 \<or> k = 3 \<or> k = 4" by arith
  then show ?thesis
    by (auto simp: DEFAULT_TICKET_IMAGES_def CULTURAL_TICKET_IMAGES_def)
qed

lemma onError_src_tables:
  "onError_src ticket =
     (if tokenId ticket = 0 then CULTURAL_TICKET_IMAGES ! 0 else DEFAULT_TICKET_IMAGES ! 0)"
  by (simp add: onError_src_def DEFAULT_TICKET_IMAGES_def CULTURAL_TICKET_IMAGES_def)

lemma render_fallback_nat:
  "render_fallback ticket =
     Some (if tokenId ticket = 0 then CULTURAL_TICKET_IMAGES ! 0
           else if is_cultural_event (render_event ticket)
           then CULTURAL_TICKET_IMAGES ! (tokenId ticket mod 5)
           else DEFAULT_TICKET_IMAGES ! (tokenId ticket mod 5))"
proof -
  have c: "js_index CULTURAL_TICKET_IMAGES
             (js_rem (int (tokenId ticket)) (int (length CULTURAL_TICKET_IMAGES)))
             = Some (CULTURAL_TICKET_IMAGES ! (tokenId ticket mod 5))"
    by (rule table_lookup_nat) (rule length_CULTURAL_TICKET_IMAGES)
  have d: "js_index DEFAULT_TICKET_IMAGES
             (js_rem (int (tokenId ticket)) (int (length DEFAULT_TICKET_IMAGES)))
             = Some (DEFAULT_TICKET_IMAGES ! (tokenId ticket mod 5))"
    by (rule table_lookup_nat) (rule length_DEFAULT_TICKET_IMAGES)
  have z: "js_index CULTURAL_TICKET_IMAGES (Some 0) = Some (CULTURAL_TICKET_IMAGES ! 0)"
    using js_index_nat [of 0 CULTURAL_TICKET_IMAGES] by (simp add: length_CULTURAL_TICKET_IMAGES)
  show ?thesis
    by (simp add: render_fallback_def getTicketFallbackImage_def number_or_zero_def c d z)
qed

text \<open>
  C1, as the code has it. The handler puts the first cultural image for ticket 0 and the
  first default ticket image for every other ticket. This is the image that
  \<open>getTicketFallbackImage\<close> gives at the render site exactly when the token id is 0, or
  the event is not a cultural one and the token id modulo 5 is neither 1 nor 2.
\<close>

theorem onError_src_agreement:
  "onError_src ticket =
     (if tokenId ticket = 0 then CULTURAL_TICKET_IMAGES ! 0 else DEFAULT_TICKET_IMAGES ! 0)
   \<and> (render_fallback ticket = Some (onError_src ticket) \<longleftrightarrow>
        tokenId ticket = 0
        \<or> (\<not> is_cultural_event (render_event ticket)
            \<and> tokenId ticket mod 5 \<noteq> 1 \<and> tokenId ticket mod 5 \<noteq> 2))"
proof -
  have k: "tokenId ticket mod 5 < 5" by simp
  show ?thesis
    unfolding onError_src_tables render_fallback_nat
    using default_entry_eq_first [OF k] cultural_entry_neq_default [OF k]
    by auto
qed

text \<open>
  C1, as stated, fails: for ticket 1 of an event that is not cultural the selector gives
  the second default image, the handler the first.
\<close>

theorem onError_src_disagrees:
  "render_fallback (example_ticket 1 1900000000000 False) =
     Some ''https://img.freepik.com/free-vector/realistic-golden-ticket-template_52683-35936.jpg''
   \<and> onError_src (example_ticket 1 1900000000000 False) =
     ''https://img.freepik.com/free-vector/realistic-concert-entrance-tickets-set_1017-30605.jpg''
   \<and> render_fallback (example_ticket 1 1900000000000 False)
       \<noteq> Some (onError_src (example_ticket 1 1900000000000 False))"
  by (simp add: example_ticket_def render_fallback_def render_event_def or_empty_def
      getTicketFallbackImage_def is_cultural_event_def mentions_cultural_def toLowerCase_def
      toLowerChar_def upper_letters_def lower_letters_def number_or_zero_def js_rem_def
      js_index_def DEFAULT_TICKET_IMAGES_def CULTURAL_TICKET_IMAGES_def onError_src_def)

section \<open>The resolution pass\<close>

text \<open>The loop adds the records of its turns, one after the other, to the array.\<close>

lemma processTokens_pushed:
  "processTokens env c account tokenIds userTickets =
     userTickets @ concat (map (\<lambda>tid. pushed (processToken env c account tid)) tokenIds)"
  by (induction tokenIds arbitrary: userTickets) (simp_all add: pushed_def split: token_result.split)

lemma pushed_tokenId: "r \<in> set (pushed (processToken env c account tid)) \<Longrightarrow> tokenId r = tid"
  by (auto simp: pushed_def processToken_def split: sum.splits if_splits)

lemma pushed_owned:
  "pushed (processToken env c account tid) \<noteq> [] \<Longrightarrow> currently_owned c account tid"
  by (auto simp: pushed_def processToken_def currently_owned_def split: sum.splits if_splits)

lemma pushed_when_available:
  assumes "currently_owned c account tid" and "details_available env tid"
  shows "\<exists>r. pushed (processToken env c account tid) = [r]"
  using assms
  by (auto simp: pushed_def processToken_def currently_owned_def details_available_def
      split: sum.splits)

lemma pushed_cases:
  "pushed (processToken env c account tid) = []
   \<or> (\<exists>r. pushed (processToken env c account tid) = [r] \<and> tokenId r = tid)"
proof (cases "processToken env c account tid")
  case (Resolved r)
  then have "r \<in> set (pushed (processToken env c account tid))"
    by (simp add: pushed_def)
  then have "tokenId r = tid" by (rule pushed_tokenId)
  with Resolved show ?thesis by (simp add: pushed_def)
qed (simp_all add: pushed_def)

lemma tokenIds_of_loop:
  "map tokenId (concat (map (\<lambda>tid. pushed (processToken env c account tid)) tokenIds))
     = filter (\<lambda>tid. pushed (processToken env c account tid) \<noteq> []) tokenIds"
proof (induction tokenIds)
  case Nil
  show ?case by simp
next
  case (Cons tid tokenIds)
  from pushed_cases [of env c account tid] Cons show ?case by auto
qed

lemma foldl_set_add_set: "set (foldl set_add s xs) = set s \<union> set xs"
  by (induction xs arbitrary: s) (auto simp: set_add_def)

lemma foldl_set_add_distinct: "distinct s \<Longrightarrow> distinct (foldl set_add s xs)"
  by (induction xs arbitrary: s) (auto simp: set_add_def)

lemma set_new_Set: "set (new_Set xs) = set xs"
  by (simp add: new_Set_def foldl_set_add_set)

lemma distinct_new_Set: "distinct (new_Set xs)"
  by (simp add: new_Set_def foldl_set_add_distinct)

lemma map_toNumber_safe:
  "\<forall>event\<in>set events. args_tokenId event \<le> MAX_SAFE_INTEGER \<Longrightarrow>
     map_toNumber events = Inr (map args_tokenId events)"
  by (induction events) (simp_all add: toNumber_def)

lemma fetchUserTickets_scan:
  assumes "getContract env = Inr c"
    and "queryFilter c account = Inr events"
    and "\<forall>event\<in>set events. args_tokenId event \<le> MAX_SAFE_INTEGER"
  shows "fetchUserTickets env account =
           Inr (sort_key eventDate
                 (concat (map (\<lambda>tid. pushed (processToken env c account tid))
                            (new_Set (map args_tokenId events)))))"
  using assms
  by (simp add: fetchUserTickets_def map_toNumber_safe processTokens_pushed array_sort_by_eventDate)

lemma tokenIds_sort_key:
  "distinct (map tokenId (sort_key f xs)) = distinct (map tokenId xs)"
  "set (map tokenId (sort_key f xs)) = set (map tokenId xs)"
proof -
  have "mset (map tokenId (sort_key f xs)) = mset (map tokenId xs)"
    by simp
  then show "distinct (map tokenId (sort_key f xs)) = distinct (map tokenId xs)"
    by (rule mset_eq_imp_distinct_iff)
  show "set (map tokenId (sort_key f xs)) = set (map tokenId xs)"
    by simp
qed

lemma string_of_nat_digit: "n < 10 \<Longrightarrow> string_of_nat n = [''0123456789'' ! n]"
  by (subst string_of_nat.simps) simp

lemma example_processToken:
  "processToken example_env example_contract ''0xabc1'' 3 = Resolved (resolved_example 3)"
  "processToken example_env example_contract ''0xabc1'' 7 = Resolved (resolved_example 7)"
  "processToken example_env example_contract ''0xabc1'' 9 = NotOwner"
  "processToken example_env example_contract ''0xabc1'' 5 =
     Resolved ((resolved_example 5)\<lparr>metadata := placeholder_metadata 5\<rparr>)"
  "processToken failing_env example_contract ''0xabc1'' 7 = Failed (Error ''call failed'')"
  by (simp_all add: processToken_def example_env_def failing_env_def example_contract_def
      resolved_example_def fetchMetadata_def toLowerCase_def toLowerChar_def upper_letters_def
      lower_letters_def string_of_nat_digit)

lemma example_run:
  "fetchUserTickets example_env ''0xabc1'' =
     Inr [resolved_example 7, (resolved_example 5)\<lparr>metadata := placeholder_metadata 5\<rparr>,
          resolved_example 3]"
proof -
  have c: "getContract example_env = Inr example_contract"
    by (simp add: example_env_def)
  have q: "queryFilter example_contract ''0xabc1'' = Inr example_events"
    by (simp add: example_contract_def)
  have n: "map_toNumber example_events = Inr [3, 7, 3, 9, 5]"
    by (simp add: example_events_def example_event_def toNumber_def MAX_SAFE_INTEGER_def)
  have s: "new_Set [3, 7, 3, 9, 5] = [3, 7, 9, 5]"
    by (simp add: new_Set_def set_add_def)
  have l: "processTokens example_env example_contract ''0xabc1'' [3, 7, 9, 5] [] =
             [resolved_example 3, resolved_example 7,
              (resolved_example 5)\<lparr>metadata := placeholder_metadata 5\<rparr>]"
    by (simp add: example_processToken)
  have o: "array_sort by_eventDate
             [resolved_example 3, resolved_example 7,
              (resolved_example 5)\<lparr>metadata := placeholder_metadata 5\<rparr>] =
             [resolved_example 7, (resolved_example 5)\<lparr>metadata := placeholder_metadata 5\<rparr>,
              resolved_example 3]"
    by (simp add: array_sort_def by_eventDate_def resolved_example_def)
  show ?thesis
    by (simp only: fetchUserTickets_def c q n s l o sum.case)
qed


lemma example_scan:
  "getContract example_env = Inr example_contract"
  "queryFilter example_contract ''0xabc1'' = Inr example_events"
  "\<forall>event\<in>set example_events. args_tokenId event \<le> MAX_SAFE_INTEGER"
  "getContract failing_env = Inr example_contract"
  "args_tokenId ` set example_events = {3, 5, 7, 9}"
  by (auto simp: example_env_def failing_env_def example_contract_def example_events_def
      example_event_def MAX_SAFE_INTEGER_def)

text \<open>
  C7. Let the scan succeed: the contract is obtained, the query returns the log, and the
  token ids of the log are safe integers, so that \<open>toNumber\<close> accepts them. For every
  such log and every owner lookup: when the ticket state, the event descriptor and the
  token URI can be read for the candidates that the account owns, the pass completes, the
  array it produces has no token id twice, and its token ids are those of the log whose
  current owner is the account, letter case aside. A candidate with another owner is not
  in it.
\<close>

theorem resolved_set_is_owned_candidates:
  assumes contract: "getContract env = Inr c"
    and log: "queryFilter c account = Inr events"
    and safe: "\<forall>event\<in>set events. args_tokenId event \<le> MAX_SAFE_INTEGER"
    and details: "\<And>tid. tid \<in> args_tokenId ` set events \<Longrightarrow> currently_owned c account tid
                    \<Longrightarrow> details_available env tid"
  shows "\<exists>tickets. fetchUserTickets env account = Inr tickets
           \<and> distinct (map tokenId tickets)
           \<and> set (map tokenId tickets)
               = {tid \<in> args_tokenId ` set events. currently_owned c account tid}"
proof -
  let ?ids = "new_Set (map args_tokenId events)"
  let ?loop = "concat (map (\<lambda>tid. pushed (processToken env c account tid)) ?ids)"
  have run: "fetchUserTickets env account = Inr (sort_key eventDate ?loop)"
    using contract log safe by (rule fetchUserTickets_scan)
  have ids: "map tokenId ?loop = filter (\<lambda>tid. pushed (processToken env c account tid) \<noteq> []) ?ids"
    by (rule tokenIds_of_loop)
  have "distinct (map tokenId ?loop)"
    unfolding ids by (simp add: distinct_new_Set)
  then have d: "distinct (map tokenId (sort_key eventDate ?loop))"
    by (simp only: tokenIds_sort_key)
  have "pushed (processToken env c account tid) \<noteq> [] \<longleftrightarrow> currently_owned c account tid"
    if "tid \<in> args_tokenId ` set events" for tid
    using that details [of tid] pushed_owned [of env c account tid]
      pushed_when_available [of c account tid env] by auto
  then have "set (map tokenId ?loop)
               = {tid \<in> args_tokenId ` set events. currently_owned c account tid}"
    unfolding ids by (auto simp: set_new_Set)
  then have s: "set (map tokenId (sort_key eventDate ?loop))
               = {tid \<in> args_tokenId ` set events. currently_owned c account tid}"
    by (simp only: tokenIds_sort_key)
  from run d s show ?thesis by blast
qed


theorem resolved_set_is_owned_candidates_witness:
  "fetchUserTickets example_env ''0xabc1'' =
     Inr [resolved_example 7, (resolved_example 5)\<lparr>metadata := placeholder_metadata 5\<rparr>,
          resolved_example 3]
   \<and> {tid \<in> args_tokenId ` set example_events. currently_owned example_contract ''0xabc1'' tid}
       = {3, 5, 7}
   \<and> 9 \<in> args_tokenId ` set example_events"
proof -
  let ?owned = "{tid \<in> args_tokenId ` set example_events.
                  currently_owned example_contract ''0xabc1'' tid}"
  have details: "details_available example_env tid" for tid
    by (simp add: details_available_def example_env_def)
  from resolved_set_is_owned_candidates [OF example_scan(1-3) details]
  obtain tickets where t: "fetchUserTickets example_env ''0xabc1'' = Inr tickets"
    and s: "set (map tokenId tickets) = ?owned"
    by blast
  from t have "tickets =
      [resolved_example 7, (resolved_example 5)\<lparr>metadata := placeholder_metadata 5\<rparr>,
       resolved_example 3]"
    by (simp add: example_run)
  with s have "?owned = set (map tokenId
      [resolved_example 7, (resolved_example 5)\<lparr>metadata := placeholder_metadata 5\<rparr>,
       resolved_example 3])"
    by simp
  also have "\<dots> = {3, 5, 7}"
    by (auto simp: resolved_example_def)
  finally have "?owned = {3, 5, 7}" .
  then show ?thesis
    using example_run by (simp add: example_scan(5))
qed

lemma fetchMetadata_fails:
  "metadata_fetch_fails env tokenURI \<Longrightarrow> fetchMetadata env tid tokenURI = placeholder_metadata tid"
  by (simp add: metadata_fetch_fails_def fetchMetadata_def split: sum.splits)

lemma filter_tokenId_pushed:
  "filter (\<lambda>r. tokenId r = tid) (pushed (processToken env c account x))
     = (if x = tid then pushed (processToken env c account x) else [])"
  using pushed_cases [of env c account x] by auto

lemma filter_tokenId_loop:
  "distinct tokenIds \<Longrightarrow>
     filter (\<lambda>r. tokenId r = tid)
       (concat (map (\<lambda>x. pushed (processToken env c account x)) tokenIds))
     = (if tid \<in> set tokenIds then pushed (processToken env c account tid) else [])"
  by (induction tokenIds) (auto simp: filter_tokenId_pushed)

text \<open>
  C6. Let the scan succeed, and take a token of the log that the account owns and whose
  ticket state, event descriptor and URI can be read. When its metadata fetch throws, at
  the translation of the URI, at the request or at the parse of the body, the pass still
  completes, and the one record with this token id in its result carries the metadata
  with the name \<open>Ticket #\<close> followed by the token id, the description
  \<open>Metadata unavailable\<close> and an empty image.
\<close>

theorem metadata_failure_gives_placeholder:
  assumes contract: "getContract env = Inr c"
    and log: "queryFilter c account = Inr events"
    and safe: "\<forall>event\<in>set events. args_tokenId event \<le> MAX_SAFE_INTEGER"
    and candidate: "tid \<in> args_tokenId ` set events"
    and owner: "ownerOf c tid = Inr currentOwner" "toLowerCase currentOwner = toLowerCase account"
    and ticket: "getTicket env tid = Inr ticket"
    and event: "getEvent env (ticket_eventId ticket) = Inr event"
    and uri: "getTokenURI env tid = Inr tokenURI"
    and failure: "metadata_fetch_fails env tokenURI"
  shows "\<exists>tickets. fetchUserTickets env account = Inr tickets
           \<and> filter (\<lambda>r. tokenId r = tid) tickets =
               [\<lparr>tokenId = tid,
                 ticket_record_eventId = ticket_eventId ticket,
                 eventName = event_name event,
                 eventDate = event_date event,
                 used = ticket_used ticket,
                 locked = ticket_locked ticket,
                 metadata =
                   \<lparr>md_name = Some (''Ticket #'' @ string_of_nat tid),
                    md_description = Some ''Metadata unavailable'',
                    image = Some []\<rparr>\<rparr>]"
proof -
  let ?ids = "new_Set (map args_tokenId events)"
  let ?loop = "concat (map (\<lambda>x. pushed (processToken env c account x)) ?ids)"
  let ?r = "\<lparr>tokenId = tid,
             ticket_record_eventId = ticket_eventId ticket,
             eventName = event_name event,
             eventDate = event_date event,
             used = ticket_used ticket,
             locked = ticket_locked ticket,
             metadata = placeholder_metadata tid\<rparr>"
  have run: "fetchUserTickets env account = Inr (sort_key eventDate ?loop)"
    using contract log safe by (rule fetchUserTickets_scan)
  have "processToken env c account tid = Resolved ?r"
    using owner ticket event uri fetchMetadata_fails [OF failure]
    by (simp add: processToken_def)
  then have p: "pushed (processToken env c account tid) = [?r]"
    by (simp add: pushed_def)
  have "tid \<in> set ?ids"
    using candidate by (simp add: set_new_Set)
  then have "filter (\<lambda>r. tokenId r = tid) ?loop = [?r]"
    using filter_tokenId_loop [OF distinct_new_Set, of tid env c account "map args_tokenId events"] p
    by simp
  then have "filter (\<lambda>r. tokenId r = tid) (sort_key eventDate ?loop) = [?r]"
    by (simp add: filter_sort)
  with run show ?thesis
    by (simp add: placeholder_metadata_def)
qed

theorem metadata_failure_gives_placeholder_witness:
  "metadata_fetch_fails example_env ''ipfs://meta/5''
   \<and> filter (\<lambda>r. tokenId r = 5)
        [resolved_example 7, (resolved_example 5)\<lparr>metadata := placeholder_metadata 5\<rparr>,
         resolved_example 3] =
       [\<lparr>tokenId = 5, ticket_record_eventId = 5, eventName = ''Rock Concert'', eventDate = 5000,
         used = False, locked = False,
         metadata =
           \<lparr>md_name = Some ''Ticket #5'', md_description = Some ''Metadata unavailable'',
            image = Some []\<rparr>\<rparr>]"
proof -
  have candidate: "5 \<in> args_tokenId ` set example_events"
    by (simp add: example_scan(5))
  have owner: "ownerOf example_contract 5 = Inr ''0xABC1''"
    "toLowerCase ''0xABC1'' = toLowerCase ''0xabc1''"
    by (simp_all add: example_contract_def toLowerCase_def toLowerChar_def upper_letters_def
        lower_letters_def)
  have ticket: "getTicket example_env 5 =
                  Inr \<lparr>ticket_eventId = 5, ticket_used = False, ticket_locked = False\<rparr>"
    by (simp add: example_env_def)
  have event: "getEvent example_env
                 (ticket_eventId \<lparr>ticket_eventId = 5, ticket_used = False, ticket_locked = False\<rparr>)
               = Inr \<lparr>event_name = ''Rock Concert'', event_date = 5000\<rparr>"
    by (simp add: example_env_def)
  have uri: "getTokenURI example_env 5 = Inr ''ipfs://meta/5''"
    by (simp add: example_env_def string_of_nat_digit)
  have failure: "metadata_fetch_fails example_env ''ipfs://meta/5''"
    by (simp add: metadata_fetch_fails_def example_env_def)
  from metadata_failure_gives_placeholder
         [OF example_scan(1-3) candidate owner ticket event uri failure]
  have "filter (\<lambda>r. tokenId r = 5)
          [resolved_example 7, (resolved_example 5)\<lparr>metadata := placeholder_metadata 5\<rparr>,
           resolved_example 3] =
        [\<lparr>tokenId = 5, ticket_record_eventId = 5, eventName = ''Rock Concert'', eventDate = 5000,
          used = False, locked = False,
          metadata =
            \<lparr>md_name = Some (''Ticket #'' @ string_of_nat 5),
             md_description = Some ''Metadata unavailable'', image = Some []\<rparr>\<rparr>]"
    by (simp add: example_run)
  with failure show ?thesis
    by (simp add: string_of_nat_digit)
qed


lemma processToken_cong:
  assumes "ownerOf c' tid = ownerOf c tid"
    and "getTicket env' tid = getTicket env tid"
    and "getEvent env' = getEvent env"
    and "getTokenURI env' tid = getTokenURI env tid"
    and "ipfsToHttp env' = ipfsToHttp env"
    and "fetch env' = fetch env"
    and "json env' = json env"
  shows "processToken env' c' account tid = processToken env c account tid"
  unfolding processToken_def fetchMetadata_def assms by (rule refl)

lemma lookup_fails_pushed:
  "lookup_fails env c account tid \<Longrightarrow> pushed (processToken env c account tid) = []"
  by (auto simp: lookup_fails_def processToken_def pushed_def split: sum.splits)

lemma filter_other_pushed:
  "filter (\<lambda>r. tokenId r \<noteq> tid) (pushed (processToken env c account x))
     = (if x = tid then [] else pushed (processToken env c account x))"
  using pushed_cases [of env c account x] by auto

lemma filter_other_loop:
  "filter (\<lambda>r. tokenId r \<noteq> tid)
       (concat (map (\<lambda>x. pushed (processToken env c account x)) tokenIds))
     = concat (map (\<lambda>x. if x = tid then [] else pushed (processToken env c account x)) tokenIds)"
  by (induction tokenIds) (simp_all add: filter_other_pushed)

text \<open>
  C8. Let the scan succeed. When the ownership check, the fetch of the ticket state or the
  fetch of the event descriptor throws for one candidate, the pass completes and its result
  holds no record of that token. Compared with any other run over the same log in which every other
  candidate is processed to the same outcome, the result is that run's result without the
  record of the token: the records of the other candidates and their order are the same.
\<close>

theorem per_token_failure_is_local:
  assumes contract: "getContract env = Inr c"
    and log: "queryFilter c account = Inr events"
    and safe: "\<forall>event\<in>set events. args_tokenId event \<le> MAX_SAFE_INTEGER"
    and fails: "lookup_fails env c account tid"
    and contract': "getContract env' = Inr c'"
    and log': "queryFilter c' account = Inr events"
    and others: "\<And>x. x \<noteq> tid \<Longrightarrow> processToken env' c' account x = processToken env c account x"
  shows "\<exists>tickets tickets'.
           fetchUserTickets env account = Inr tickets
           \<and> fetchUserTickets env' account = Inr tickets'
           \<and> tickets = filter (\<lambda>r. tokenId r \<noteq> tid) tickets'
           \<and> tid \<notin> tokenId ` set tickets"
proof -
  let ?ids = "new_Set (map args_tokenId events)"
  let ?loop = "concat (map (\<lambda>x. pushed (processToken env c account x)) ?ids)"
  let ?loop' = "concat (map (\<lambda>x. pushed (processToken env' c' account x)) ?ids)"
  have run: "fetchUserTickets env account = Inr (sort_key eventDate ?loop)"
    using contract log safe by (rule fetchUserTickets_scan)
  have run': "fetchUserTickets env' account = Inr (sort_key eventDate ?loop')"
    using contract' log' safe by (rule fetchUserTickets_scan)
  have "(if x = tid then [] else pushed (processToken env' c' account x))
          = pushed (processToken env c account x)" for x
    using others [of x] lookup_fails_pushed [OF fails] by simp
  then have "filter (\<lambda>r. tokenId r \<noteq> tid) ?loop' = ?loop"
    by (simp add: filter_other_loop)
  then have eq: "sort_key eventDate ?loop = filter (\<lambda>r. tokenId r \<noteq> tid) (sort_key eventDate ?loop')"
    by (simp add: filter_sort)
  have "tid \<notin> tokenId ` set (sort_key eventDate ?loop)"
    unfolding eq by auto
  with run run' eq show ?thesis by blast
qed

theorem per_token_failure_is_local_witness:
  "lookup_fails failing_env example_contract ''0xabc1'' 7
   \<and> fetchUserTickets example_env ''0xabc1'' =
       Inr [resolved_example 7, (resolved_example 5)\<lparr>metadata := placeholder_metadata 5\<rparr>,
            resolved_example 3]
   \<and> fetchUserTickets failing_env ''0xabc1'' =
       Inr [(resolved_example 5)\<lparr>metadata := placeholder_metadata 5\<rparr>, resolved_example 3]"
proof -
  have fails: "lookup_fails failing_env example_contract ''0xabc1'' 7"
    by (simp add: lookup_fails_def failing_env_def example_env_def example_contract_def
        toLowerCase_def toLowerChar_def upper_letters_def lower_letters_def)
  have others: "processToken example_env example_contract ''0xabc1'' x
                  = processToken failing_env example_contract ''0xabc1'' x" if "x \<noteq> 7" for x
    using that by (intro processToken_cong) (simp_all add: failing_env_def)
  from per_token_failure_is_local
         [OF example_scan(4) example_scan(2) example_scan(3) fails example_scan(1) example_scan(2) others]
  obtain tickets where "fetchUserTickets failing_env ''0xabc1'' = Inr tickets"
    and "tickets = filter (\<lambda>r. tokenId r \<noteq> 7)
           [resolved_example 7, (resolved_example 5)\<lparr>metadata := placeholder_metadata 5\<rparr>,
            resolved_example 3]"
    by (auto simp: example_run)
  then have "fetchUserTickets failing_env ''0xabc1'' =
       Inr [(resolved_example 5)\<lparr>metadata := placeholder_metadata 5\<rparr>, resolved_example 3]"
    by (simp add: resolved_example_def)
  with fails example_run show ?thesis by simp
qed

section \<open>The displayed image\<close>




lemma mentions_cultural_raw_string:
  "mentions_cultural_raw (Some (Json_string s)) = Inr (mentions_cultural (Some s))"
  by (cases s) (simp_all add: mentions_cultural_raw_def mentions_cultural_def toLowerCase_def)

lemma getTicketFallbackImage_raw_strings:
  "getTicketFallbackImage_raw
     (Some \<lparr>raw_eventId = e, raw_name = Some (Json_string n), raw_description = Some (Json_string d)\<rparr>)
     ticketId
   = Inr (getTicketFallbackImage (Some \<lparr>eventId = e, name = Some n, description = Some d\<rparr>) ticketId)"
  by (simp add: getTicketFallbackImage_raw_def getTicketFallbackImage_def
      mentions_cultural_raw_string is_cultural_event_def)

lemma or_empty_string_text:
  "string_or_falsy x \<Longrightarrow> or_empty_string x = Json_string (text_of (or_empty_string x))"
  by (auto simp: string_or_falsy_def or_empty_string_def text_of_def
      split: option.splits json_value.splits)

lemma render_fallback_raw_strings:
  assumes "raw_metadata ticket \<noteq> Json_null"
    and "string_or_falsy (member_value (raw_metadata ticket) ''description'')"
  shows "render_fallback_raw ticket =
           Inr (getTicketFallbackImage
                  (Some \<lparr>eventId = raw_ticket_eventId ticket,
                         name = Some (raw_eventName ticket),
                         description =
                           Some (text_of (or_empty_string
                                   (member_value (raw_metadata ticket) ''description'')))\<rparr>)
                  (JNumber (int (raw_tokenId ticket))))"
proof -
  have "render_fallback_raw ticket =
          getTicketFallbackImage_raw
            (Some \<lparr>raw_eventId = raw_ticket_eventId ticket,
                   raw_name = Some (Json_string (raw_eventName ticket)),
                   raw_description =
                     Some (or_empty_string (member_value (raw_metadata ticket) ''description''))\<rparr>)
            (JNumber (int (raw_tokenId ticket)))"
    using assms(1) by (simp add: render_fallback_raw_def get_member_def)
  also have "\<dots> =
          getTicketFallbackImage_raw
            (Some \<lparr>raw_eventId = raw_ticket_eventId ticket,
                   raw_name = Some (Json_string (raw_eventName ticket)),
                   raw_description =
                     Some (Json_string (text_of (or_empty_string
                             (member_value (raw_metadata ticket) ''description''))))\<rparr>)
            (JNumber (int (raw_tokenId ticket)))"
    using or_empty_string_text [OF assms(2)] by simp
  finally show ?thesis
    by (simp only: getTicketFallbackImage_raw_strings)
qed

lemma raw_of_shape:
  "raw_metadata (raw_of ticket) \<noteq> Json_null"
  "string_or_falsy (member_value (raw_metadata (raw_of ticket)) ''description'')"
  "member_value (raw_metadata (raw_of ticket)) ''image''
     = map_option Json_string (image (metadata ticket))"
  "member_value (raw_metadata (raw_of ticket)) ''description''
     = map_option Json_string (md_description (metadata ticket))"
  by (auto simp: raw_of_def to_json_def member_of_def member_value_def string_or_falsy_def
      split: option.splits)

text \<open>
  On a typed record the expression is what the typed reading of it gives: the selector
  call of the render site, or the translation of the image.
\<close>

lemma text_of_or_empty:
  "text_of (or_empty_string (map_option Json_string d)) = or_empty d"
  by (cases d) (simp_all add: text_of_def or_empty_string_def or_empty_def)

lemma img_src_of_typed:
  assumes "image (metadata ticket) = None \<or> image (metadata ticket) = Some []"
  shows "img_src translate (raw_of ticket) = Inr (render_fallback ticket)"
proof -
  have "img_src translate (raw_of ticket) = render_fallback_raw (raw_of ticket)"
    using assms raw_of_shape(1) [of ticket]
    by (auto simp: img_src_def get_member_def raw_of_shape(3))
  also have "\<dots> = Inr (render_fallback ticket)"
  proof -
    have f: "raw_ticket_eventId (raw_of ticket) = ticket_record_eventId ticket"
      "raw_eventName (raw_of ticket) = eventName ticket"
      "raw_tokenId (raw_of ticket) = tokenId ticket"
      by (simp_all add: raw_of_def)
    show ?thesis
      unfolding render_fallback_raw_strings [OF raw_of_shape(1) raw_of_shape(2)]
        raw_of_shape(4) text_of_or_empty f render_fallback_def render_event_def
      by (rule refl)
  qed
  finally show ?thesis .
qed

lemma img_src_of_typed_image:
  assumes "image (metadata ticket) = Some u" and "u \<noteq> []"
  shows "img_src translate (raw_of ticket) =
           (case translate (Json_string u) of Inl err \<Rightarrow> Inl err | Inr url \<Rightarrow> Inr (Some url))"
  using assms raw_of_shape(1) [of ticket]
  by (simp add: img_src_def get_member_def raw_of_shape(3))




end
